theory Spec2Isabelle
  imports Main
begin

section \<open>Strings and characters of the forwarder\<close>

text \<open>
  A string of the program is modelled as a \<open>string\<close>: a list of code units below 256.
  The two line terminators and the white space of the regular expressions are the code
  units of that range that ECMAScript puts in \<open>LineTerminator\<close> and in \<open>\s\<close>; the letters
  that \<open>toLowerCase\<close> changes are the capitals of that range.
\<close>

definition LF :: char where
  "LF = CHR 0x0A"

definition CR :: char where
  "CR = CHR 0x0D"

definition LineTerminator :: "char \<Rightarrow> bool" where
  "LineTerminator c = (c = CHR 0x0A \<or> c = CHR 0x0D)"

definition WhiteSpace :: "char \<Rightarrow> bool" where
  "WhiteSpace c = (c \<in> set [CHR 0x09, CHR 0x0A, CHR 0x0B, CHR 0x0C, CHR 0x0D, CHR 0x20, CHR 0xA0])"

definition upper_letters :: string where
  "upper_letters =
     ''ABCDEFGHIJKLMNOPQRSTUVWXYZ'' @
     [CHR 0xC0, CHR 0xC1, CHR 0xC2, CHR 0xC3, CHR 0xC4, CHR 0xC5, CHR 0xC6, CHR 0xC7,
      CHR 0xC8, CHR 0xC9, CHR 0xCA, CHR 0xCB, CHR 0xCC, CHR 0xCD, CHR 0xCE, CHR 0xCF,
      CHR 0xD0, CHR 0xD1, CHR 0xD2, CHR 0xD3, CHR 0xD4, CHR 0xD5, CHR 0xD6, CHR 0xD8,
      CHR 0xD9, CHR 0xDA, CHR 0xDB, CHR 0xDC, CHR 0xDD, CHR 0xDE]"

definition lower_letters :: string where
  "lower_letters =
     ''abcdefghijklmnopqrstuvwxyz'' @
     [CHR 0xE0, CHR 0xE1, CHR 0xE2, CHR 0xE3, CHR 0xE4, CHR 0xE5, CHR 0xE6, CHR 0xE7,
      CHR 0xE8, CHR 0xE9, CHR 0xEA, CHR 0xEB, CHR 0xEC, CHR 0xED, CHR 0xEE, CHR 0xEF,
      CHR 0xF0, CHR 0xF1, CHR 0xF2, CHR 0xF3, CHR 0xF4, CHR 0xF5, CHR 0xF6, CHR 0xF8,
      CHR 0xF9, CHR 0xFA, CHR 0xFB, CHR 0xFC, CHR 0xFD, CHR 0xFE]"

definition lower_char :: "char \<Rightarrow> char" where
  "lower_char c = (case map_of (zip upper_letters lower_letters) c of Some l \<Rightarrow> l | None \<Rightarrow> c)"

definition toLowerCase :: "string \<Rightarrow> string" where
  "toLowerCase s = map lower_char s"

section \<open>Recipient Transformer: the lookup key\<close>

text \<open>
  \<open>origEmail.toLowerCase().replace(/\+.*?@/, '@')\<close>: the first \<open>+\<close> from which an
  \<open>@\<close> is reached without crossing a line terminator is replaced, with everything up to
  the nearest such \<open>@\<close>, by \<open>@\<close>. \<open>until_at\<close> is the lazy \<open>.*?@\<close> after a \<open>+\<close>.
\<close>

fun until_at :: "string \<Rightarrow> string option" where
  "until_at [] = None"
| "until_at (c # cs) =
     (if c = CHR ''@'' then Some cs
      else if LineTerminator c then None
      else until_at cs)"

fun strip_plus_tag :: "string \<Rightarrow> string" where
  "strip_plus_tag [] = []"
| "strip_plus_tag (c # cs) =
     (if c = CHR ''+'' then
        (case until_at cs of
           Some rest \<Rightarrow> CHR ''@'' # rest
         | None \<Rightarrow> c # strip_plus_tag cs)
      else c # strip_plus_tag cs)"

definition origEmailKey :: "string \<Rightarrow> string" where
  "origEmailKey origEmail = strip_plus_tag (toLowerCase origEmail)"

section \<open>The pipeline context and its collaborators\<close>

text \<open>
  Every error of the program is a JavaScript \<open>Error\<close> with a message; a failed property
  read or spread is a \<open>TypeError\<close>. The names the specification gives to the four
  errors of the stages are the four messages below.
\<close>

datatype err = Error string | TypeError string

fun message_of :: "err \<Rightarrow> string" where
  "message_of (Error m) = m"
| "message_of (TypeError m) = m"

definition InvalidEventError :: err where
  "InvalidEventError = Error ''Error: Received invalid SES message.''"

definition ConfigurationError :: err where
  "ConfigurationError = Error ''Error: Invalid FORWARD_MAPPING configuration.''"

definition FetchError :: err where
  "FetchError = Error ''Error: Failed to load message from S3.''"

definition SendError :: err where
  "SendError = Error ''Error: Email sending failed.''"

definition StepError :: err where
  "StepError = Error ''Error: Step returned error.''"

text \<open>
  The notification has the type of an SES event: a record that is present carries its
  \<open>ses\<close> block with \<open>mail\<close> and \<open>receipt\<close>, which the code reads without a guard. What the
  code does guard with \<open>?.\<close> may be absent: the event, its \<open>Records\<close>, a record, its
  \<open>eventSource\<close> and \<open>eventVersion\<close>.
\<close>

record SESMail =
  messageId :: string

record SESReceipt =
  receiptRecipients :: "string list"

record SESMessage =
  mail :: SESMail
  receipt :: SESReceipt

record SESEventRecord =
  eventSource :: "string option"
  eventVersion :: "string option"
  ses :: SESMessage

record SESEvent =
  Records :: "SESEventRecord option list option"

record Config =
  toEmail :: "string option"

text \<open>
  The mutable fields of \<open>Data\<close>. Its collaborators (\<open>callback\<close>, \<open>log\<close>, \<open>ses\<close>, \<open>s3\<close>) and
  \<open>process.env\<close> are the \<open>runtime\<close> below; what they are asked to do is recorded in the
  \<open>world\<close>. An absent field is \<open>undefined\<close>.
\<close>

record Data =
  event :: "SESEvent option"
  config :: Config
  email :: "SESMail option"
  recipients :: "string list option"
  originalRecipients :: "string list option"
  originalRecipient :: "string option"
  emailData :: "string option"

datatype jsval = Undefined | Obj Data

text \<open>
  What a stage does: it returns a value, or it throws; \<open>Threw e d\<close> carries the state
  \<open>d\<close> of the stage's context object at the moment the exception leaves the stage.
\<close>

datatype outcome = Returned jsval | Threw err Data

record log_entry =
  level :: string
  message :: string

record SendRawEmail =
  Destinations :: "string list option"
  Source :: "string option"
  RawMessage :: string

record world =
  logged :: "log_entry list"
  signals :: "err option list"
  s3_requests :: "(string option \<times> string) list"
  ses_requests :: "SendRawEmail list"

text \<open>
  \<open>JSON_parse\<close> is \<open>JSON.parse\<close> at the type the code declares for its result,
  \<open>Record<string, string[]>\<close>: \<open>None\<close> is a thrown \<open>SyntaxError\<close>. \<open>s3_send\<close> is
  \<open>GetObject\<close> followed by \<open>Body?.transformToString()\<close>, \<open>ses_send\<close> is \<open>SendRawEmail\<close>;
  \<open>Inl\<close> is what they throw. \<open>callback_returns\<close> is the value the invocation's callback
  returns; an object it returns has the collaborators of the invocation.
\<close>

record runtime =
  FORWARD_MAPPING :: "string option"
  BUCKET_NAME :: "string option"
  KEY_PREFIX :: "string option"
  DOMAIN :: "string option"
  JSON_parse :: "string \<Rightarrow> (string \<rightharpoonup> string list) option"
  s3_send :: "string option \<times> string \<Rightarrow> err + string option"
  ses_send :: "SendRawEmail \<Rightarrow> err + unit"
  callback_returns :: "err option \<Rightarrow> jsval"

definition log :: "string \<Rightarrow> string \<Rightarrow> world \<Rightarrow> world" where
  "log lvl msg w = w\<lparr>logged := logged w @ [\<lparr>level = lvl, message = msg\<rparr>]\<rparr>"

definition callback :: "runtime \<Rightarrow> err option \<Rightarrow> world \<Rightarrow> jsval \<times> world" where
  "callback rt error w = (callback_returns rt error, w\<lparr>signals := signals w @ [error]\<rparr>)"

text \<open>A value in a template literal: \<open>undefined\<close> prints as the word.\<close>

definition str :: "string option \<Rightarrow> string" where
  "str v = (case v of None \<Rightarrow> ''undefined'' | Some s \<Rightarrow> s)"

fun join :: "string \<Rightarrow> string list \<Rightarrow> string" where
  "join sep [] = []"
| "join sep [x] = x"
| "join sep (x # y # ys) = x @ sep @ join sep (y # ys)"

section \<open>Event Parser\<close>

text \<open>
  \<open>invalid_event\<close> is the condition of the \<open>if\<close>. Behind it the one record is present, so
  the last case of \<open>parseEvent\<close>, the read of \<open>ses\<close> from a record that is not there, is
  never taken.
\<close>

definition invalid_event :: "SESEvent option \<Rightarrow> bool" where
  "invalid_event ev =
     (case Option.bind ev Records of
        None \<Rightarrow> True
      | Some rs \<Rightarrow>
          (case rs of
             [r] \<Rightarrow> Option.bind r eventSource \<noteq> Some ''aws:ses'' \<or>
                    Option.bind r eventVersion \<noteq> Some ''1.0''
           | _ \<Rightarrow> True))"

definition parseEvent :: "Data \<Rightarrow> world \<Rightarrow> outcome \<times> world" where
  "parseEvent data w =
     (if invalid_event (event data) then
        (Threw (Error ''Error: Received invalid SES message.'') data,
         log ''error'' ''parseEvent() received invalid SES message:'' w)
      else
        (case Option.bind (event data) Records of
           Some [Some r] \<Rightarrow>
             (Returned (Obj (data\<lparr>email := Some (mail (ses r)),
                                  recipients := Some (receiptRecipients (receipt (ses r)))\<rparr>)), w)
         | _ \<Rightarrow>
             (Threw (TypeError ''Cannot read properties of undefined (reading 'ses')'') data, w)))"

section \<open>Recipient Transformer\<close>

text \<open>
  \<open>k in forwardMapping\<close> holds for the keys of the parsed object and for the property
  names every object inherits from \<open>Object.prototype\<close>. The value read under an inherited
  name is not iterable, so spreading it into \<open>push\<close> throws.
\<close>

definition Object_prototype_keys :: "string list" where
  "Object_prototype_keys =
     [''constructor'', ''__defineGetter__'', ''__defineSetter__'', ''hasOwnProperty'',
      ''__lookupGetter__'', ''__lookupSetter__'', ''isPrototypeOf'', ''propertyIsEnumerable'',
      ''toString'', ''valueOf'', ''__proto__'', ''toLocaleString'']"

definition js_in :: "string \<Rightarrow> (string \<rightharpoonup> string list) \<Rightarrow> bool" where
  "js_in k forwardMapping = (forwardMapping k \<noteq> None \<or> k \<in> set Object_prototype_keys)"

definition push_spread ::
  "string list \<Rightarrow> (string \<rightharpoonup> string list) \<Rightarrow> string \<Rightarrow> err + string list" where
  "push_spread newRecipients forwardMapping k =
     (case forwardMapping k of
        Some destinations \<Rightarrow> Inr (newRecipients @ destinations)
      | None \<Rightarrow> Inl (TypeError ''Spread syntax requires ...iterable[Symbol.iterator] to be a function''))"

fun lastIndexOf :: "char \<Rightarrow> string \<Rightarrow> nat option" where
  "lastIndexOf c [] = None"
| "lastIndexOf c (x # xs) =
     (case lastIndexOf c xs of
        Some i \<Rightarrow> Some (Suc i)
      | None \<Rightarrow> if x = c then Some 0 else None)"

text \<open>
  The key under which one recipient is forwarded, by the \<open>if\<close>/\<open>else if\<close> chain of the
  loop body: the whole key, its domain, its user part, the catch-all.
\<close>

definition matched_key :: "(string \<rightharpoonup> string list) \<Rightarrow> string \<Rightarrow> string option" where
  "matched_key forwardMapping key =
     (if js_in key forwardMapping then Some key
      else
        (let pos = lastIndexOf (CHR ''@'') key;
             origEmailDomain = (case pos of None \<Rightarrow> None | Some p \<Rightarrow> Some (drop p key));
             origEmailUser = (case pos of None \<Rightarrow> key | Some p \<Rightarrow> take p key)
         in
           if (case origEmailDomain of None \<Rightarrow> False | Some d \<Rightarrow> d \<noteq> [] \<and> js_in d forwardMapping)
           then origEmailDomain
           else if origEmailUser \<noteq> [] \<and> js_in origEmailUser forwardMapping
           then Some origEmailUser
           else if js_in ''@'' forwardMapping then Some ''@''
           else None))"

definition forward_mapping_source :: "runtime \<Rightarrow> string" where
  "forward_mapping_source rt =
     (case FORWARD_MAPPING rt of None \<Rightarrow> ''{}'' | Some s \<Rightarrow> if s = [] then ''{}'' else s)"

fun for_recipients ::
  "runtime \<Rightarrow> string list \<Rightarrow> string list \<Rightarrow> Data \<Rightarrow> world \<Rightarrow> (err + string list) \<times> Data \<times> world" where
  "for_recipients rt [] newRecipients data w = (Inr newRecipients, data, w)"
| "for_recipients rt (origEmail # rest) newRecipients data w =
     (case JSON_parse rt (forward_mapping_source rt) of
        None \<Rightarrow>
          (Inl (Error ''Error: Invalid FORWARD_MAPPING configuration.''), data,
           log ''error'' ''Failed to parse FORWARD_MAPPING environment variable'' w)
      | Some forwardMapping \<Rightarrow>
          (case matched_key forwardMapping (origEmailKey origEmail) of
             None \<Rightarrow> for_recipients rt rest newRecipients data w
           | Some k \<Rightarrow>
               (case push_spread newRecipients forwardMapping k of
                  Inl e \<Rightarrow> (Inl e, data, w)
                | Inr pushed \<Rightarrow>
                    for_recipients rt rest pushed (data\<lparr>originalRecipient := Some origEmail\<rparr>) w)))"

definition transformRecipients :: "runtime \<Rightarrow> Data \<Rightarrow> world \<Rightarrow> outcome \<times> world" where
  "transformRecipients rt data w =
     (let data1 = data\<lparr>originalRecipients := recipients data\<rparr> in
      case for_recipients rt (case recipients data1 of None \<Rightarrow> [] | Some rs \<Rightarrow> rs) [] data1 w of
        (Inl e, data2, w2) \<Rightarrow> (Threw e data2, w2)
      | (Inr newRecipients, data2, w2) \<Rightarrow>
          if length newRecipients = 0 then
            (case callback rt None
                    (log ''info''
                       (''Finishing process. No new recipients found for original destinations: '' @
                        str (map_option (join '', '') (originalRecipients data2))) w2) of
               (v, w3) \<Rightarrow> (Returned v, w3))
          else (Returned (Obj (data2\<lparr>recipients := Some newRecipients\<rparr>)), w2))"

section \<open>Message Fetcher\<close>

definition fetchMessage :: "runtime \<Rightarrow> Data \<Rightarrow> world \<Rightarrow> outcome \<times> world" where
  "fetchMessage rt data w =
     (let bucketName = BUCKET_NAME rt;
          keyPrefix = KEY_PREFIX rt;
          key = str keyPrefix @ str (map_option messageId (email data));
          w1 = log ''info'' (''Fetching email at s3://'' @ str bucketName @ ''/'' @ key) w;
          w2 = w1\<lparr>s3_requests := s3_requests w1 @ [(bucketName, key)]\<rparr>
      in
        case s3_send rt (bucketName, key) of
          Inr body \<Rightarrow> (Returned (Obj (data\<lparr>emailData := body\<rparr>)), w2)
        | Inl e \<Rightarrow>
            (Threw (Error ''Error: Failed to load message from S3.'') data,
             log ''error'' ''Error occurred while fetching message:'' w2))"

section \<open>Message Sender\<close>

definition sendMessage :: "runtime \<Rightarrow> Data \<Rightarrow> world \<Rightarrow> outcome \<times> world" where
  "sendMessage rt data w =
     (let params = \<lparr>Destinations = recipients data,
                     Source = originalRecipient data,
                     RawMessage = (case emailData data of None \<Rightarrow> [] | Some s \<Rightarrow> s)\<rparr>;
          w1 = log ''info''
                 (''sendMessage: Sending email via SES. Original recipients: '' @
                  str (map_option (join '', '') (originalRecipients data)) @
                  ''. Transformed recipients: '' @
                  str (map_option (join '', '') (recipients data)) @ ''.'') w;
          w2 = w1\<lparr>ses_requests := ses_requests w1 @ [params]\<rparr>
      in
        case ses_send rt params of
          Inr result \<Rightarrow> (Returned (Obj data), log ''info'' ''sendRawEmail() successful.'' w2)
        | Inl e \<Rightarrow>
            (Threw (Error ''Error: Email sending failed.'') data,
             log ''error'' ''sendRawEmail() returned error.'' w2))"

section \<open>Message Processor\<close>

subsection \<open>Pieces of the regular expressions\<close>

text \<open>
  \<open>.\<close> is any character but a line terminator. A matcher below is anchored at the head
  of its argument and returns what is left of it after the match, so the text matched from
  \<open>s\<close> up to the rest \<open>r\<close> is \<open>consumed s r\<close>.
\<close>

definition isDot :: "char \<Rightarrow> bool" where
  "isDot c = (\<not> LineTerminator c)"

definition consumed :: "string \<Rightarrow> string \<Rightarrow> string" where
  "consumed s r = take (length s - length r) s"

text \<open>\<open>\r?\n\<close>\<close>

fun eol :: "string \<Rightarrow> string option" where
  "eol [] = None"
| "eol (c # cs) =
     (if c = CHR 0x0A then Some cs
      else if c = CHR 0x0D then
        (case cs of [] \<Rightarrow> None | d # ds \<Rightarrow> if d = CHR 0x0A then Some ds else None)
      else None)"

text \<open>\<open>[\t ]?\<close>\<close>

fun opt_blank :: "string \<Rightarrow> string" where
  "opt_blank [] = []"
| "opt_blank (c # cs) = (if c = CHR 0x09 \<or> c = CHR 0x20 then cs else c # cs)"

text \<open>A header name under the \<open>i\<close> flag: the letters of the name in either case.\<close>

fun prefix_ci :: "string \<Rightarrow> string \<Rightarrow> string option" where
  "prefix_ci [] t = Some t"
| "prefix_ci (p # ps) [] = None"
| "prefix_ci (p # ps) (c # cs) = (if lower_char c = lower_char p then prefix_ci ps cs else None)"

fun first_some :: "'a option list \<Rightarrow> 'a option" where
  "first_some [] = None"
| "first_some (x # xs) = (case x of Some y \<Rightarrow> Some y | None \<Rightarrow> first_some xs)"

text \<open>
  \<open>^\<close> under the \<open>m\<close> flag holds at the start of the input and after every line
  terminator. \<open>first_match\<close> is \<open>String.prototype.match\<close> and \<open>RegExp.prototype.test\<close> for
  an expression that starts with \<open>^\<close>: the match at the leftmost position where \<open>^\<close> holds
  and the rest of the expression, \<open>m\<close>, matches.
\<close>

fun first_match :: "(string \<Rightarrow> 'a option) \<Rightarrow> bool \<Rightarrow> string \<Rightarrow> 'a option" where
  "first_match m bol [] = (if bol then m [] else None)"
| "first_match m bol (c # cs) =
     (case (if bol then m (c # cs) else None) of
        Some x \<Rightarrow> Some x
      | None \<Rightarrow> first_match m (LineTerminator c) cs)"

lemma eol_shorter: "eol s = Some r \<Longrightarrow> length r < length s"
  by (cases s) (auto split: if_splits list.splits)

lemma first_some_mem: "first_some xs = Some y \<Longrightarrow> Some y \<in> set xs"
  by (induction xs) (auto split: option.splits)

subsection \<open>Header and body\<close>

text \<open>
  \<open>/^((?:.+\r?\n)*)(\r?\n(?:.*\s+)*)/m\<close>. \<open>header_lines\<close> is the greedy \<open>(?:.+\r?\n)*\<close>:
  as long as a line has a character and ends in \<open>\r?\n\<close> it is taken. A shorter \<open>.+\<close>
  or one line less leaves a character that is no line terminator in front of the \<open>\r?\n\<close>
  that must follow, so nothing is gained by backtracking.
\<close>

function header_lines :: "string \<Rightarrow> string" where
  "header_lines s =
     (if takeWhile isDot s = [] then s
      else (case eol (dropWhile isDot s) of None \<Rightarrow> s | Some s' \<Rightarrow> header_lines s'))"
  by pat_completeness auto
termination
proof (relation "measure length")
  show "wf (measure length)" by simp
next
  fix s s' :: string
  assume "eol (dropWhile isDot s) = Some s'"
  then have "length s' < length (dropWhile isDot s)" by (rule eol_shorter)
  also have "\<dots> \<le> length s" by (rule length_dropWhile_le)
  finally show "(s', s) \<in> measure length" by simp
qed

text \<open>
  \<open>body_rest\<close> is the greedy \<open>(?:.*\s+)*\<close>. On a line that ends in a line terminator,
  \<open>.*\<close> takes the line and \<open>\s+\<close> the terminator and the white space after it. On the last
  line, with no terminator, \<open>.*\<close> gives characters back until white space follows it: the
  round takes the line up to its last white space character, and no round follows.
\<close>

function body_rest :: "string \<Rightarrow> string" where
  "body_rest s =
     (let r = dropWhile isDot s in
      if r \<noteq> [] then body_rest (dropWhile WhiteSpace r)
      else if \<exists>c \<in> set s. WhiteSpace c then rev (takeWhile (\<lambda>c. \<not> WhiteSpace c) (rev s))
      else s)"
  by pat_completeness auto
termination
proof (relation "measure length")
  show "wf (measure length)" by simp
next
  fix s r :: string
  assume r: "r = dropWhile isDot s" and ne: "r \<noteq> []"
  then have "\<not> isDot (hd r)" using hd_dropWhile by metis
  then have "WhiteSpace (hd r)" by (auto simp: isDot_def LineTerminator_def WhiteSpace_def)
  with ne have "length (dropWhile WhiteSpace r) < length r"
    by (cases r) (auto intro: le_imp_less_Suc length_dropWhile_le)
  also have "\<dots> \<le> length s" using r by (simp add: length_dropWhile_le)
  finally show "(dropWhile WhiteSpace r, s) \<in> measure length" by simp
qed

definition split_here :: "string \<Rightarrow> (string \<times> string) option" where
  "split_here t =
     (let r = header_lines t in
      case eol r of
        None \<Rightarrow> None
      | Some b \<Rightarrow> Some (consumed t r, consumed r (body_rest b)))"

definition split_message :: "string \<Rightarrow> (string \<times> string) option" where
  "split_message raw = first_match split_here True raw"

subsection \<open>Reply-To\<close>

text \<open>\<open>/^reply-to:[\t ]?/mi.test(header || '')\<close>\<close>

definition has_reply_to :: "string \<Rightarrow> bool" where
  "has_reply_to header = (first_match (prefix_ci ''reply-to:'') True header \<noteq> None)"

text \<open>
  \<open>/^from:[\t ]?(.*(?:\r?\n\s+.*)*\r?\n)/mi\<close>. \<open>from_tail e\<close> is \<open>(?:\r?\n\s+.*)*\r?\n\<close> at
  the end \<open>e\<close> of a line. A round of the star is tried first: after \<open>\r?\n\<close>, \<open>\s+\<close> takes the
  white space \<open>k\<close> characters long, the longest first, \<open>.*\<close> the line that is left, and the
  rest of the expression goes on from the end of that line. When no length succeeds the
  star stops and the closing \<open>\r?\n\<close> is the one just read.
\<close>

function from_tail :: "string \<Rightarrow> string option" where
  "from_tail e =
     (case eol e of
        None \<Rightarrow> None
      | Some e1 \<Rightarrow>
          (case first_some
                  (map (\<lambda>k. from_tail (dropWhile isDot (drop k e1)))
                     (rev [1 ..< Suc (length (takeWhile WhiteSpace e1))])) of
             Some r \<Rightarrow> Some r
           | None \<Rightarrow> Some e1))"
  by pat_completeness auto
termination
proof (relation "measure length")
  show "wf (measure length)" by simp
next
  fix e e1 :: string and k :: nat
  assume "eol e = Some e1"
  then have "length e1 < length e" by (rule eol_shorter)
  moreover have "length (dropWhile isDot (drop k e1)) \<le> length (drop k e1)"
    by (rule length_dropWhile_le)
  ultimately show "(dropWhile isDot (drop k e1), e) \<in> measure length" by simp
qed

definition from_value :: "string \<Rightarrow> string option" where
  "from_value t =
     (case prefix_ci ''from:'' t of
        None \<Rightarrow> None
      | Some a \<Rightarrow>
          (let b = opt_blank a in
           case from_tail (dropWhile isDot b) of
             None \<Rightarrow> None
           | Some r \<Rightarrow> Some (consumed b r)))"

subsection \<open>Replacing every match\<close>

text \<open>
  \<open>String.prototype.replace\<close> with an expression under the \<open>g\<close> and \<open>m\<close> flags that starts
  with \<open>^\<close>. The matcher \<open>m\<close>, anchored at the head of the text not yet scanned, returns the
  length of the match and its first capture; \<open>f matched capture pre post\<close> is the
  replacement. \<open>pre\<close> is the text already scanned. After an empty match the scan moves one
  character on, as \<open>AdvanceStringIndex\<close> does.
\<close>

definition at_bol :: "string \<Rightarrow> bool" where
  "at_bol pre = (pre = [] \<or> LineTerminator (last pre))"

type_synonym matcher = "string \<Rightarrow> (nat \<times> string) option"

type_synonym replacer = "string \<Rightarrow> string \<Rightarrow> string \<Rightarrow> string \<Rightarrow> string"

function replace_all :: "matcher \<Rightarrow> replacer \<Rightarrow> string \<Rightarrow> string \<Rightarrow> string" where
  "replace_all m f pre t =
     (case (if at_bol pre then m t else None) of
        Some (n, cap) \<Rightarrow>
          f (take n t) cap pre (drop n t) @
          (if n = 0 \<or> t = [] then
             (case t of [] \<Rightarrow> [] | c # cs \<Rightarrow> c # replace_all m f (pre @ [c]) cs)
           else replace_all m f (pre @ take n t) (drop n t))
      | None \<Rightarrow>
          (case t of [] \<Rightarrow> [] | c # cs \<Rightarrow> c # replace_all m f (pre @ [c]) cs))"
  by pat_completeness auto
termination
  by (relation "measure (\<lambda>(m, f, pre, t). length t)") auto

text \<open>
  \<open>GetSubstitution\<close> for a replacement given as a string, with one capture and no named
  group: \<open>$$\<close>, \<open>$&\<close>, the text before and after the match, \<open>$1\<close> and \<open>$01\<close>; any other
  \<open>$\<close> stands for itself.
\<close>

fun GetSubstitution :: "string \<Rightarrow> string \<Rightarrow> string \<Rightarrow> string \<Rightarrow> string \<Rightarrow> string" where
  "GetSubstitution [] matched cap pre post = []"
| "GetSubstitution [c] matched cap pre post = [c]"
| "GetSubstitution (c # d # ds) matched cap pre post =
     (if c \<noteq> CHR ''$'' then c # GetSubstitution (d # ds) matched cap pre post
      else if d = CHR ''$'' then CHR ''$'' # GetSubstitution ds matched cap pre post
      else if d = CHR ''&'' then matched @ GetSubstitution ds matched cap pre post
      else if d = CHR 0x60 then pre @ GetSubstitution ds matched cap pre post
      else if d = CHR 0x27 then post @ GetSubstitution ds matched cap pre post
      else if d = CHR ''1'' then cap @ GetSubstitution ds matched cap pre post
      else if d = CHR ''0'' \<and> ds \<noteq> [] \<and> hd ds = CHR ''1''
      then cap @ GetSubstitution (tl ds) matched cap pre post
      else c # GetSubstitution (d # ds) matched cap pre post)"

subsection \<open>From\<close>

text \<open>
  \<open>/^from:[\t ]?(.*(?:\r?\n\s+.*)*)/mgi\<close>. Nothing follows the star, so each round is the
  greedy one: \<open>\r?\n\<close>, all the white space there is (at least one character), the rest
  of the line.
\<close>

function folded_lines :: "string \<Rightarrow> string" where
  "folded_lines e =
     (case eol e of
        None \<Rightarrow> e
      | Some e1 \<Rightarrow>
          if takeWhile WhiteSpace e1 = [] then e
          else folded_lines (dropWhile isDot (dropWhile WhiteSpace e1)))"
  by pat_completeness auto
termination
proof (relation "measure length")
  show "wf (measure length)" by simp
next
  fix e e1 :: string
  assume "eol e = Some e1"
  then have "length e1 < length e" by (rule eol_shorter)
  moreover have "length (dropWhile isDot (dropWhile WhiteSpace e1)) \<le> length e1"
    by (meson length_dropWhile_le order_trans)
  ultimately show "(dropWhile isDot (dropWhile WhiteSpace e1), e) \<in> measure length" by simp
qed

definition from_line :: matcher where
  "from_line t =
     (case prefix_ci ''from:'' t of
        None \<Rightarrow> None
      | Some a \<Rightarrow>
          (let b = opt_blank a; r = folded_lines (dropWhile isDot b)
           in Some (length t - length r, consumed b r)))"

text \<open>
  \<open>from.replace(/<(.*)>/, '')\<close>: the first \<open><\<close> that has a \<open>>\<close> after it on its line is
  removed with everything up to the last such \<open>>\<close>.
\<close>

fun strip_angle :: "string \<Rightarrow> string" where
  "strip_angle [] = []"
| "strip_angle (c # cs) =
     (if c = CHR ''<'' then
        (case lastIndexOf (CHR ''>'') (takeWhile isDot cs) of
           Some i \<Rightarrow> drop (Suc i) cs
         | None \<Rightarrow> c # strip_angle cs)
      else c # strip_angle cs)"

definition trim :: "string \<Rightarrow> string" where
  "trim s = rev (dropWhile WhiteSpace (rev (dropWhile WhiteSpace s)))"

definition rewrite_from :: "string \<Rightarrow> replacer" where
  "rewrite_from fromEmail matched from pre post =
     ''From: '' @ trim (strip_angle from) @ '' <'' @ fromEmail @ ''>''"

subsection \<open>To, Return-Path, Sender, Message-ID, DKIM-Signature\<close>

text \<open>\<open>/^to:[\t ]?(.*)/mgi\<close>\<close>

definition to_line :: matcher where
  "to_line t =
     (case prefix_ci ''to:'' t of
        None \<Rightarrow> None
      | Some a \<Rightarrow>
          (let b = opt_blank a; r = dropWhile isDot b
           in Some (length t - length r, consumed b r)))"

text \<open>
  \<open>/^name[\t ]?(.*)\r?\n/mgi\<close> for \<open>return-path:\<close>, \<open>sender:\<close> and \<open>message-id:\<close>: a line of
  that name that ends in \<open>\r?\n\<close>.
\<close>

definition whole_line :: "string \<Rightarrow> matcher" where
  "whole_line name t =
     (case prefix_ci name t of
        None \<Rightarrow> None
      | Some a \<Rightarrow>
          (let b = opt_blank a; e = dropWhile isDot b
           in case eol e of
                None \<Rightarrow> None
              | Some r \<Rightarrow> Some (length t - length r, consumed b e)))"

text \<open>
  \<open>/^dkim-signature:[\t ]?.*\r?\n(\s+.*\r?\n)*/mgi\<close>. A round of the star takes white
  space \<open>k\<close> characters long, the longest first for which the line that is left ends in
  \<open>\r?\n\<close>; the capture is the last round.
\<close>

definition dkim_round :: "string \<Rightarrow> string option" where
  "dkim_round t =
     first_some
       (map (\<lambda>k. eol (dropWhile isDot (drop k t)))
          (rev [1 ..< Suc (length (takeWhile WhiteSpace t))]))"

lemma dkim_round_shorter: "dkim_round t = Some r \<Longrightarrow> length r < length t"
proof -
  assume "dkim_round t = Some r"
  then obtain k where "eol (dropWhile isDot (drop k t)) = Some r"
    unfolding dkim_round_def by (auto dest!: first_some_mem)
  then have "length r < length (dropWhile isDot (drop k t))" by (rule eol_shorter)
  also have "\<dots> \<le> length (drop k t)" by (rule length_dropWhile_le)
  also have "\<dots> \<le> length t" by simp
  finally show ?thesis .
qed

function dkim_rounds :: "string \<Rightarrow> string \<Rightarrow> string \<times> string" where
  "dkim_rounds cap t =
     (case dkim_round t of
        None \<Rightarrow> (cap, t)
      | Some r \<Rightarrow> dkim_rounds (consumed t r) r)"
  by pat_completeness auto
termination
  by (relation "measure (\<lambda>(cap, t). length t)") (auto dest: dkim_round_shorter)

definition dkim_signature :: matcher where
  "dkim_signature t =
     (case prefix_ci ''dkim-signature:'' t of
        None \<Rightarrow> None
      | Some a \<Rightarrow>
          (case eol (dropWhile isDot (opt_blank a)) of
             None \<Rightarrow> None
           | Some e1 \<Rightarrow>
               (case dkim_rounds [] e1 of
                  (cap, r) \<Rightarrow> Some (length t - length r, cap))))"

definition delete :: replacer where
  "delete matched cap pre post = []"

subsection \<open>The stage\<close>

text \<open>
  \<open>header\<close> and \<open>body\<close> as the first three lines of the stage compute them: without a
  match, or with an empty first group, the header is the whole \<open>emailData\<close>.
\<close>

definition header_and_body :: "string option \<Rightarrow> string option \<times> string" where
  "header_and_body raw =
     (let match = Option.bind raw split_message
      in ((case match of
             Some (m1, m2) \<Rightarrow> if m1 \<noteq> [] then Some m1 else raw
           | None \<Rightarrow> raw),
          (case match of Some (m1, m2) \<Rightarrow> m2 | None \<Rightarrow> [])))"

definition add_reply_to :: "string option \<Rightarrow> world \<Rightarrow> string option \<times> world" where
  "add_reply_to header w =
     (if \<not> has_reply_to (case header of None \<Rightarrow> [] | Some h \<Rightarrow> h) then
        (let from = (case header of
                       None \<Rightarrow> []
                     | Some h \<Rightarrow> (case first_match from_value True h of Some v \<Rightarrow> v | None \<Rightarrow> []))
         in if from \<noteq> [] then
              (Some (str header @ ''Reply-To: '' @ from),
               log ''info'' (''Added Reply-To address of: '' @ from) w)
            else
              (header,
               log ''info''
                 ''Reply-To address not added because From address was not properly extracted.'' w))
      else (header, w))"

definition rewrite_header :: "runtime \<Rightarrow> Config \<Rightarrow> string option \<Rightarrow> string option" where
  "rewrite_header rt cfg header1 =
     (let fromEmail = ''noreply@'' @ str (DOMAIN rt);
          header2 = map_option (replace_all from_line (rewrite_from fromEmail) []) header1;
          header3 = (case toEmail cfg of
                       None \<Rightarrow> header2
                     | Some to \<Rightarrow>
                         if to = [] then header2
                         else map_option
                                (replace_all to_line (GetSubstitution (''To: '' @ to)) []) header2);
          header4 = map_option (replace_all (whole_line ''return-path:'') delete []) header3;
          header5 = map_option (replace_all (whole_line ''sender:'') delete []) header4;
          header6 = map_option (replace_all (whole_line ''message-id:'') delete []) header5
      in map_option (replace_all dkim_signature delete []) header6)"

definition processMessage :: "runtime \<Rightarrow> Data \<Rightarrow> world \<Rightarrow> outcome \<times> world" where
  "processMessage rt data w =
     (case header_and_body (emailData data) of
        (header, body) \<Rightarrow>
          (case add_reply_to header w of
             (header1, w1) \<Rightarrow>
               (Returned
                  (Obj (data\<lparr>emailData :=
                               Some (str (rewrite_header rt (config data) header1) @ body)\<rparr>)),
                w1)))"

section \<open>Pipeline driver\<close>

text \<open>
  The overrides \<open>log\<close>, \<open>ses\<close> and \<open>s3\<close> of the handler are the collaborators of the
  \<open>runtime\<close>. A step of the driver takes the value the step before it returned. Each stage of the
  program reads a property of its argument before anything else, so on \<open>undefined\<close> it
  throws a \<open>TypeError\<close> and does nothing: \<open>stage p f\<close> is the stage \<open>f\<close> whose first read is
  the property \<open>p\<close>.
\<close>

type_synonym step = "jsval \<Rightarrow> world \<Rightarrow> (err + jsval) \<times> world"

definition stage :: "string \<Rightarrow> (Data \<Rightarrow> world \<Rightarrow> outcome \<times> world) \<Rightarrow> step" where
  "stage p f v w =
     (case v of
        Undefined \<Rightarrow>
          (Inl (TypeError (''Cannot read properties of undefined (reading '' @ [CHR 0x27] @ p @ [CHR 0x27] @ '')'')), w)
      | Obj data \<Rightarrow>
          (case f data w of
             (Returned v', w') \<Rightarrow> (Inr v', w')
           | (Threw e data', w') \<Rightarrow> (Inl e, w')))"

fun run_steps :: "step list \<Rightarrow> jsval \<Rightarrow> world \<Rightarrow> (err + jsval) \<times> world" where
  "run_steps [] result w = (Inr result, w)"
| "run_steps (step # steps) result w =
     (case step result w of
        (Inl e, w') \<Rightarrow> (Inl e, w')
      | (Inr result', w') \<Rightarrow> run_steps steps result' w')"

definition new_data :: "SESEvent option \<Rightarrow> Config \<Rightarrow> Data" where
  "new_data ev cfg =
     \<lparr>event = ev, config = cfg, email = None, recipients = None, originalRecipients = None,
      originalRecipient = None, emailData = None\<rparr>"

definition default_steps :: "runtime \<Rightarrow> step list" where
  "default_steps rt =
     [stage ''event'' parseEvent,
      stage ''recipients'' (transformRecipients rt),
      stage ''log'' (fetchMessage rt),
      stage ''emailData'' (processMessage rt),
      stage ''recipients'' (sendMessage rt)]"

record Overrides =
  steps :: "step list option"
  config_override :: "Config option"

definition handler :: "runtime \<Rightarrow> SESEvent option \<Rightarrow> Overrides option \<Rightarrow> world \<Rightarrow> jsval \<times> world" where
  "handler rt ev overrides w =
     (let the_steps = (case Option.bind overrides steps of None \<Rightarrow> default_steps rt | Some ss \<Rightarrow> ss);
          data = new_data ev (case Option.bind overrides config_override of
                                None \<Rightarrow> \<lparr>toEmail = None\<rparr>
                              | Some c \<Rightarrow> c)
      in case run_steps the_steps (Obj data) w of
           (Inr result, w') \<Rightarrow>
             callback rt None (log ''info'' ''Process finished successfully.'' w')
         | (Inl e, w') \<Rightarrow>
             callback rt (Some (Error ''Error: Step returned error.''))
               (log ''error'' (''Step returned error: '' @ message_of e) w'))"

section \<open>Statements of the specification\<close>

text \<open>
  The Event Parser's contract in the specification's words: a notification is valid iff
  exactly one record is present, and that record declares the expected event source and
  the expected schema version.
\<close>

definition single_record :: "SESEvent option \<Rightarrow> SESEventRecord option" where
  "single_record ev =
     (case ev of
        None \<Rightarrow> None
      | Some e \<Rightarrow> (case Records e of Some [Some r] \<Rightarrow> Some r | _ \<Rightarrow> None))"

definition valid_notification :: "SESEvent option \<Rightarrow> bool" where
  "valid_notification ev =
     (case single_record ev of
        None \<Rightarrow> False
      | Some r \<Rightarrow> eventSource r = Some ''aws:ses'' \<and> eventVersion r = Some ''1.0'')"

text \<open>
  The Recipient Transformer's rules in the specification's words, for a normalized
  address: the domain portion is the substring from the last \<open>@\<close>, inclusive, and there is
  none without an \<open>@\<close>; the local part is the substring before the last \<open>@\<close>, the whole
  address without one. The destinations are those of the first rule that matches: the
  full address, the domain portion, the local part, the catch-all \<open>@\<close>.
\<close>

definition domain_part :: "string \<Rightarrow> string option" where
  "domain_part key = map_option (\<lambda>p. drop p key) (lastIndexOf (CHR ''@'') key)"

definition local_part :: "string \<Rightarrow> string" where
  "local_part key = (case lastIndexOf (CHR ''@'') key of None \<Rightarrow> key | Some p \<Rightarrow> take p key)"

definition spec_destinations :: "(string \<rightharpoonup> string list) \<Rightarrow> string \<Rightarrow> string list" where
  "spec_destinations table key =
     (case table key of
        Some ds \<Rightarrow> ds
      | None \<Rightarrow>
          (case Option.bind (domain_part key) table of
             Some ds \<Rightarrow> ds
           | None \<Rightarrow>
               (case table (local_part key) of
                  Some ds \<Rightarrow> ds
                | None \<Rightarrow> (case table ''@'' of Some ds \<Rightarrow> ds | None \<Rightarrow> []))))"

text \<open>The same rules, the local part being looked up only when it is not empty.\<close>

definition guarded_destinations :: "(string \<rightharpoonup> string list) \<Rightarrow> string \<Rightarrow> string list" where
  "guarded_destinations table key =
     (case table key of
        Some ds \<Rightarrow> ds
      | None \<Rightarrow>
          (case Option.bind (domain_part key) table of
             Some ds \<Rightarrow> ds
           | None \<Rightarrow>
               (case (if local_part key = [] then None else table (local_part key)) of
                  Some ds \<Rightarrow> ds
                | None \<Rightarrow> (case table ''@'' of Some ds \<Rightarrow> ds | None \<Rightarrow> []))))"

text \<open>An original recipient matches a forwarding rule when the loop body finds a key for it.\<close>

definition matches :: "(string \<rightharpoonup> string list) \<Rightarrow> string \<Rightarrow> bool" where
  "matches table origEmail = (matched_key table (origEmailKey origEmail) \<noteq> None)"

text \<open>The destinations the loop body appends for one recipient, when nothing is thrown.\<close>

definition destinations_of :: "(string \<rightharpoonup> string list) \<Rightarrow> string \<Rightarrow> string list" where
  "destinations_of table origEmail =
     (case matched_key table (origEmailKey origEmail) of
        None \<Rightarrow> []
      | Some k \<Rightarrow> (case table k of None \<Rightarrow> [] | Some ds \<Rightarrow> ds))"

text \<open>No recipient is matched through an inherited property name, so no spread throws.\<close>

definition own_matches :: "(string \<rightharpoonup> string list) \<Rightarrow> string list \<Rightarrow> bool" where
  "own_matches table rs =
     list_all (\<lambda>x. case matched_key table (origEmailKey x) of
                     None \<Rightarrow> True
                   | Some k \<Rightarrow> table k \<noteq> None) rs"







section \<open>Example inputs\<close>

definition ex_record :: "string list \<Rightarrow> SESEventRecord" where
  "ex_record rs =
     \<lparr>eventSource = Some ''aws:ses'', eventVersion = Some ''1.0'',
      ses = \<lparr>mail = \<lparr>messageId = ''m1''\<rparr>, receipt = \<lparr>receiptRecipients = rs\<rparr>\<rparr>\<rparr>"

definition ex_event :: "string list \<Rightarrow> SESEvent" where
  "ex_event rs = \<lparr>Records = Some [Some (ex_record rs)]\<rparr>"

definition no_config :: Config where
  "no_config = \<lparr>toEmail = None\<rparr>"

definition w0 :: world where
  "w0 = \<lparr>logged = [], signals = [], s3_requests = [], ses_requests = []\<rparr>"

text \<open>
  A runtime whose forwarding table parses to \<open>table\<close> (or does not parse, for \<open>None\<close>),
  whose object store holds \<open>stored\<close> under every key and whose callback returns \<open>v\<close>.
\<close>

definition ex_runtime :: "(string \<rightharpoonup> string list) option \<Rightarrow> string \<Rightarrow> jsval \<Rightarrow> runtime" where
  "ex_runtime table stored v =
     \<lparr>FORWARD_MAPPING = Some ''FORWARD_MAPPING'', BUCKET_NAME = Some ''bucket'',
      KEY_PREFIX = Some ''inbox/'', DOMAIN = Some ''example.com'',
      JSON_parse = (\<lambda>source. table), s3_send = (\<lambda>request. Inr (Some stored)),
      ses_send = (\<lambda>params. Inr ()), callback_returns = (\<lambda>error. v)\<rparr>"

definition alice_table :: "string \<rightharpoonup> string list" where
  "alice_table =
     [''alice@example.com'' \<mapsto> [''a1@dest.com'', ''a2@dest.com''],
      ''@example.com'' \<mapsto> [''domain@dest.com'']]"

definition catchall_table :: "string \<rightharpoonup> string list" where
  "catchall_table = [''@'' \<mapsto> [''catchall@dest.com'']]"

definition empty_key_table :: "string \<rightharpoonup> string list" where
  "empty_key_table = ['''' \<mapsto> [''x@dest.com'']]"

definition hello_message :: string where
  "hello_message =
     ''From: A <a@b.com>'' @ [CR, LF] @ ''To: x@y.com'' @ [CR, LF, CR, LF] @ ''hello''"


section \<open>The lookup key is not normalized twice\<close>

lemma lower_char_idem: "lower_char (lower_char c) = lower_char c"
  unfolding lower_char_def upper_letters_def lower_letters_def
  by (simp split: option.splits)

lemma lower_char_at: "lower_char c = CHR ''@'' \<longleftrightarrow> c = CHR ''@''"
  unfolding lower_char_def upper_letters_def lower_letters_def
  by (auto split: option.splits if_splits)

lemma until_at_lowered:
  "\<forall>c \<in> set cs. lower_char c = c \<Longrightarrow> until_at cs = Some r \<Longrightarrow> \<forall>c \<in> set r. lower_char c = c"
  by (induction cs) (auto split: if_splits)

lemma strip_plus_tag_lowered:
  "\<forall>c \<in> set s. lower_char c = c \<Longrightarrow> \<forall>c \<in> set (strip_plus_tag s). lower_char c = c"
proof (induction s)
  case Nil
  then show ?case by simp
next
  case (Cons c cs)
  have at: "lower_char (CHR ''@'') = CHR ''@''" by (simp add: lower_char_at)
  from Cons show ?case
    by (auto split: option.splits simp: at dest: until_at_lowered)
qed

lemma toLowerCase_fixed: "\<forall>c \<in> set s. lower_char c = c \<Longrightarrow> toLowerCase s = s"
  by (simp add: toLowerCase_def map_idI)

lemma until_at_none_strip: "until_at cs = None \<Longrightarrow> until_at (strip_plus_tag cs) = None"
  by (induction cs) (auto split: if_splits option.splits simp: LineTerminator_def)

lemma until_at_count:
  "until_at cs = Some r \<Longrightarrow> count_list cs (CHR ''@'') = Suc (count_list r (CHR ''@''))"
  by (induction cs) (auto split: if_splits)

lemma until_at_mem: "until_at cs = Some r \<Longrightarrow> CHR ''@'' \<in> set cs"
  by (induction cs) (auto split: if_splits)

lemma strip_plus_tag_no_at: "CHR ''@'' \<notin> set s \<Longrightarrow> strip_plus_tag s = s"
proof (induction s)
  case Nil
  then show ?case by simp
next
  case (Cons c cs)
  then have "until_at cs = None"
    using until_at_mem by (cases "until_at cs") auto
  with Cons show ?case by simp
qed

text \<open>
  Once the tag is cut, a second cut can only start at a \<open>+\<close> behind the \<open>@\<close> that was
  kept, and needs a second \<open>@\<close>.
\<close>

lemma strip_plus_tag_idem:
  "count_list s (CHR ''@'') \<le> 1 \<Longrightarrow> strip_plus_tag (strip_plus_tag s) = strip_plus_tag s"
proof (induction s)
  case Nil
  then show ?case by simp
next
  case (Cons c cs)
  have le: "count_list cs (CHR ''@'') \<le> 1"
    using Cons.prems by (simp split: if_splits)
  show ?case
  proof (cases "c = CHR ''+''")
    case False
    with Cons.IH [OF le] show ?thesis by simp
  next
    case True
    show ?thesis
    proof (cases "until_at cs")
      case None
      with True Cons.IH [OF le] until_at_none_strip [OF None] show ?thesis by simp
    next
      case (Some r)
      from until_at_count [OF Some] le have "count_list r (CHR ''@'') = 0" by simp
      then have "CHR ''@'' \<notin> set r" by (simp add: count_list_0_iff)
      then have "strip_plus_tag r = r" by (rule strip_plus_tag_no_at)
      with True Some show ?thesis by simp
    qed
  qed
qed

lemma count_at_lower: "count_list (toLowerCase s) (CHR ''@'') = count_list s (CHR ''@'')"
  by (induction s) (auto simp: toLowerCase_def lower_char_at)

text \<open>
  C3, as the code has it: the lookup key of an address with at most one \<open>@\<close> is its own
  lookup key, and the key of \<open>User+Tag@Example.com\<close> is \<open>user@example.com\<close>.
\<close>

theorem origEmailKey_idempotent:
  "(count_list origEmail (CHR ''@'') \<le> 1 \<longrightarrow>
      origEmailKey (origEmailKey origEmail) = origEmailKey origEmail) \<and>
   origEmailKey ''User+Tag@Example.com'' = ''user@example.com''"
proof
  show "count_list origEmail (CHR ''@'') \<le> 1 \<longrightarrow>
      origEmailKey (origEmailKey origEmail) = origEmailKey origEmail"
  proof
    assume one: "count_list origEmail (CHR ''@'') \<le> 1"
    have low: "\<forall>c \<in> set (toLowerCase origEmail). lower_char c = c"
      by (simp add: toLowerCase_def lower_char_idem)
    have "toLowerCase (strip_plus_tag (toLowerCase origEmail)) = strip_plus_tag (toLowerCase origEmail)"
      by (rule toLowerCase_fixed) (rule strip_plus_tag_lowered [OF low])
    moreover have "count_list (toLowerCase origEmail) (CHR ''@'') \<le> 1"
      using one by (simp add: count_at_lower)
    ultimately show "origEmailKey (origEmailKey origEmail) = origEmailKey origEmail"
      by (simp add: origEmailKey_def strip_plus_tag_idem)
  qed
next
  show "origEmailKey ''User+Tag@Example.com'' = ''user@example.com''"
    by (simp add: origEmailKey_def toLowerCase_def lower_char_def upper_letters_def
        lower_letters_def LineTerminator_def)
qed

theorem origEmailKey_idempotent_witness:
  "count_list ''User+Tag@Example.com'' (CHR ''@'') \<le> 1 \<and>
   origEmailKey (origEmailKey ''User+Tag@Example.com'') = origEmailKey ''User+Tag@Example.com''"
proof -
  have "count_list ''User+Tag@Example.com'' (CHR ''@'') \<le> 1" by simp
  with origEmailKey_idempotent [of "''User+Tag@Example.com''"] show ?thesis by blast
qed

text \<open>
  C3 as it is stated fails: the key of \<open>a+b@+c@d.com\<close> is \<open>a@+c@d.com\<close>, whose key is
  \<open>a@@d.com\<close>.
\<close>

theorem origEmailKey_twice_differs:
  "origEmailKey (origEmailKey ''a+b@+c@d.com'') \<noteq> origEmailKey ''a+b@+c@d.com''"
  by (simp add: origEmailKey_def toLowerCase_def lower_char_def upper_letters_def
      lower_letters_def LineTerminator_def)

section \<open>Event Parser\<close>

lemma invalid_event_iff: "invalid_event ev \<longleftrightarrow> \<not> valid_notification ev"
  by (auto simp: invalid_event_def valid_notification_def single_record_def
      split: option.splits list.splits)

lemma single_record_Records:
  "single_record ev = Some r \<Longrightarrow> Option.bind ev Records = Some [Some r]"
  by (auto simp: single_record_def split: option.splits list.splits)

lemma parseEvent_valid:
  assumes "valid_notification (event data)" and "single_record (event data) = Some r"
  shows "parseEvent data w =
           (Returned (Obj (data\<lparr>email := Some (mail (ses r)),
                                recipients := Some (receiptRecipients (receipt (ses r)))\<rparr>)), w)"
proof -
  from assms(1) have "\<not> invalid_event (event data)" by (simp add: invalid_event_iff)
  with single_record_Records [OF assms(2)] show ?thesis by (simp add: parseEvent_def)
qed

lemma parseEvent_invalid:
  assumes "\<not> valid_notification (event data)"
  shows "parseEvent data w =
           (Threw InvalidEventError data,
            log ''error'' ''parseEvent() received invalid SES message:'' w)"
  using assms by (simp add: invalid_event_iff parseEvent_def InvalidEventError_def)

text \<open>
  C6: on a valid notification the parser returns the context with the mail block (and so
  the message identifier) and the recipient list of the one record, as they are; on every
  other notification it throws the invalid-event error, the context is as it was, and the
  world has one more log entry.
\<close>

theorem parseEvent_valid_or_throws:
  "(valid_notification (event data) \<longrightarrow>
      (\<exists>r. single_record (event data) = Some r \<and>
           parseEvent data w =
             (Returned (Obj (data\<lparr>email := Some (mail (ses r)),
                                  recipients := Some (receiptRecipients (receipt (ses r)))\<rparr>)), w))) \<and>
   (\<not> valid_notification (event data) \<longrightarrow>
      parseEvent data w =
        (Threw InvalidEventError data,
         log ''error'' ''parseEvent() received invalid SES message:'' w))"
proof (intro conjI impI)
  assume v: "valid_notification (event data)"
  then obtain r where r: "single_record (event data) = Some r"
    by (auto simp: valid_notification_def split: option.splits)
  with parseEvent_valid [OF v r]
  show "\<exists>r. single_record (event data) = Some r \<and>
           parseEvent data w =
             (Returned (Obj (data\<lparr>email := Some (mail (ses r)),
                                  recipients := Some (receiptRecipients (receipt (ses r)))\<rparr>)), w)"
    by blast
next
  assume "\<not> valid_notification (event data)"
  then show "parseEvent data w =
        (Threw InvalidEventError data,
         log ''error'' ''parseEvent() received invalid SES message:'' w)"
    by (rule parseEvent_invalid)
qed

theorem parseEvent_valid_or_throws_witness:
  "valid_notification (Some (ex_event [''b@x.com'', ''a@x.com''])) \<and>
   fst (parseEvent (new_data (Some (ex_event [''b@x.com'', ''a@x.com''])) no_config) w0) =
     Returned (Obj ((new_data (Some (ex_event [''b@x.com'', ''a@x.com''])) no_config)
        \<lparr>email := Some \<lparr>messageId = ''m1''\<rparr>, recipients := Some [''b@x.com'', ''a@x.com'']\<rparr>)) \<and>
   \<not> valid_notification (Some \<lparr>Records = Some []\<rparr>) \<and>
   fst (parseEvent (new_data (Some \<lparr>Records = Some []\<rparr>) no_config) w0) =
     Threw InvalidEventError (new_data (Some \<lparr>Records = Some []\<rparr>) no_config)"
proof -
  have v: "valid_notification (Some (ex_event [''b@x.com'', ''a@x.com'']))"
    by (simp add: valid_notification_def single_record_def ex_event_def ex_record_def)
  have s: "single_record (Some (ex_event [''b@x.com'', ''a@x.com''])) = Some (ex_record [''b@x.com'', ''a@x.com''])"
    by (simp add: single_record_def ex_event_def)
  have n: "\<not> valid_notification (Some \<lparr>Records = Some []\<rparr>)"
    by (simp add: valid_notification_def single_record_def)
  from parseEvent_valid_or_throws [of "new_data (Some (ex_event [''b@x.com'', ''a@x.com''])) no_config" w0] v s
  have 1: "fst (parseEvent (new_data (Some (ex_event [''b@x.com'', ''a@x.com''])) no_config) w0) =
     Returned (Obj ((new_data (Some (ex_event [''b@x.com'', ''a@x.com''])) no_config)
        \<lparr>email := Some \<lparr>messageId = ''m1''\<rparr>, recipients := Some [''b@x.com'', ''a@x.com'']\<rparr>))"
    by (auto simp: new_data_def ex_record_def)
  from parseEvent_valid_or_throws [of "new_data (Some \<lparr>Records = Some []\<rparr>) no_config" w0] n
  have 2: "fst (parseEvent (new_data (Some \<lparr>Records = Some []\<rparr>) no_config) w0) =
     Threw InvalidEventError (new_data (Some \<lparr>Records = Some []\<rparr>) no_config)"
    by (simp add: new_data_def)
  from v 1 n 2 show ?thesis by blast
qed

section \<open>What the fetcher and the processor leave alone\<close>

text \<open>
  C10: a context returned by the Message Fetcher or by the Message Processor is the
  context it was given with a new \<open>emailData\<close>, so its \<open>recipients\<close>, \<open>originalRecipients\<close>
  and \<open>originalRecipient\<close> are the ones it was given; and both stages return or throw with
  the context as it was.
\<close>

theorem fetch_and_process_frame:
  "(\<exists>body w'. fetchMessage rt data w = (Returned (Obj (data\<lparr>emailData := body\<rparr>)), w') \<and>
        recipients (data\<lparr>emailData := body\<rparr>) = recipients data \<and>
        originalRecipients (data\<lparr>emailData := body\<rparr>) = originalRecipients data \<and>
        originalRecipient (data\<lparr>emailData := body\<rparr>) = originalRecipient data
      \<or> fetchMessage rt data w = (Threw FetchError data, w')) \<and>
   (\<exists>body w'. processMessage rt data w = (Returned (Obj (data\<lparr>emailData := body\<rparr>)), w') \<and>
        recipients (data\<lparr>emailData := body\<rparr>) = recipients data \<and>
        originalRecipients (data\<lparr>emailData := body\<rparr>) = originalRecipients data \<and>
        originalRecipient (data\<lparr>emailData := body\<rparr>) = originalRecipient data)"
proof
  show "\<exists>body w'. fetchMessage rt data w = (Returned (Obj (data\<lparr>emailData := body\<rparr>)), w') \<and>
        recipients (data\<lparr>emailData := body\<rparr>) = recipients data \<and>
        originalRecipients (data\<lparr>emailData := body\<rparr>) = originalRecipients data \<and>
        originalRecipient (data\<lparr>emailData := body\<rparr>) = originalRecipient data
      \<or> fetchMessage rt data w = (Threw FetchError data, w')"
    by (cases "s3_send rt (BUCKET_NAME rt, str (KEY_PREFIX rt) @ str (map_option messageId (email data)))")
      (auto simp: fetchMessage_def Let_def FetchError_def)
next
  obtain header body where hb: "header_and_body (emailData data) = (header, body)"
    by (cases "header_and_body (emailData data)")
  obtain header1 w1 where h1: "add_reply_to header w = (header1, w1)"
    by (cases "add_reply_to header w")
  from hb h1 have "processMessage rt data w =
      (Returned (Obj (data\<lparr>emailData := Some (str (rewrite_header rt (config data) header1) @ body)\<rparr>)), w1)"
    by (simp add: processMessage_def)
  then show "\<exists>body w'. processMessage rt data w = (Returned (Obj (data\<lparr>emailData := body\<rparr>)), w') \<and>
        recipients (data\<lparr>emailData := body\<rparr>) = recipients data \<and>
        originalRecipients (data\<lparr>emailData := body\<rparr>) = originalRecipients data \<and>
        originalRecipient (data\<lparr>emailData := body\<rparr>) = originalRecipient data"
    by auto
qed

theorem fetch_and_process_frame_witness:
  "\<exists>body w'.
     processMessage (ex_runtime (Some Map.empty) '''' Undefined)
       ((new_data None no_config)\<lparr>recipients := Some [''to@dest.com''],
          originalRecipients := Some [''a@example.com''],
          originalRecipient := Some ''a@example.com''\<rparr>) w0 =
     (Returned (Obj ((new_data None no_config)\<lparr>recipients := Some [''to@dest.com''],
          originalRecipients := Some [''a@example.com''],
          originalRecipient := Some ''a@example.com'', emailData := body\<rparr>)), w')"
  using fetch_and_process_frame [of "ex_runtime (Some Map.empty) '''' Undefined"
      "(new_data None no_config)\<lparr>recipients := Some [''to@dest.com''],
          originalRecipients := Some [''a@example.com''],
          originalRecipient := Some ''a@example.com''\<rparr>" w0]
  by blast

section \<open>The driver stops at the first error\<close>

lemma run_steps_append:
  "run_steps (xs @ ys) v w =
     (case run_steps xs v w of
        (Inl e, w') \<Rightarrow> (Inl e, w')
      | (Inr v', w') \<Rightarrow> run_steps ys v' w')"
  by (induction xs arbitrary: v w) (auto split: prod.splits sum.splits)

lemma run_steps_failing:
  assumes "run_steps before v w = (Inr v1, w1)" and "failing v1 w1 = (Inl e, w2)"
  shows "run_steps (before @ failing # later) v w = (Inl e, w2)"
  using assms by (simp add: run_steps_append)

text \<open>
  C7: whatever the steps are, when the steps \<open>before\<close> return and the step \<open>failing\<close>
  throws \<open>e\<close>, leaving the world \<open>w2\<close>, the handler logs the error and signals the one
  error of the driver; the steps \<open>later\<close> and the kind of \<open>e\<close> have no part in the signal.
\<close>

theorem handler_first_error:
  assumes "(case Option.bind overrides steps of None \<Rightarrow> default_steps rt | Some ss \<Rightarrow> ss) =
             before @ failing # later"
    and "run_steps before
           (Obj (new_data ev (case Option.bind overrides config_override of
                                None \<Rightarrow> \<lparr>toEmail = None\<rparr> | Some c \<Rightarrow> c))) w = (Inr v1, w1)"
    and "failing v1 w1 = (Inl e, w2)"
  shows "handler rt ev overrides w =
           (callback_returns rt (Some StepError),
            (log ''error'' (''Step returned error: '' @ message_of e) w2)
              \<lparr>signals := signals w2 @ [Some StepError]\<rparr>)"
  using assms(1) run_steps_failing [where failing = failing and later = later, OF assms(2) assms(3)]
  by (simp add: handler_def Let_def callback_def StepError_def log_def)

theorem handler_first_error_witness:
  "handler (ex_runtime (Some Map.empty) '''' Undefined) None None w0 =
     (Undefined,
      \<lparr>logged = [\<lparr>level = ''error'', message = ''parseEvent() received invalid SES message:''\<rparr>,
                 \<lparr>level = ''error'',
                  message = ''Step returned error: Error: Received invalid SES message.''\<rparr>],
       signals = [Some StepError], s3_requests = [], ses_requests = []\<rparr>)"
proof -
  let ?rt = "ex_runtime (Some Map.empty) '''' Undefined"
  have 1: "(case Option.bind None steps of None \<Rightarrow> default_steps ?rt | Some ss \<Rightarrow> ss) =
             [] @ stage ''event'' parseEvent #
               [stage ''recipients'' (transformRecipients ?rt), stage ''log'' (fetchMessage ?rt),
                stage ''emailData'' (processMessage ?rt), stage ''recipients'' (sendMessage ?rt)]"
    by (simp add: default_steps_def)
  have 2: "run_steps []
           (Obj (new_data None (case Option.bind None config_override of
                                None \<Rightarrow> \<lparr>toEmail = None\<rparr> | Some c \<Rightarrow> c))) w0 =
           (Inr (Obj (new_data None \<lparr>toEmail = None\<rparr>)), w0)"
    by simp
  have 3: "stage ''event'' parseEvent (Obj (new_data None \<lparr>toEmail = None\<rparr>)) w0 =
           (Inl InvalidEventError, log ''error'' ''parseEvent() received invalid SES message:'' w0)"
    by (simp add: stage_def parseEvent_def invalid_event_def new_data_def InvalidEventError_def)
  from handler_first_error [OF 1 2 3] show ?thesis
    by (simp add: ex_runtime_def InvalidEventError_def log_def w0_def)
qed

section \<open>A forwarding table that does not parse\<close>

text \<open>
  C9, as the code has it: the table is parsed inside the loop over the recipients, so
  when it does not parse and there is a recipient, the transformer throws the
  configuration error at the first one; the context then has \<open>originalRecipients\<close> set and
  nothing else changed, so no destination was appended.
\<close>

theorem unparsable_table_throws:
  assumes "JSON_parse rt (forward_mapping_source rt) = None"
    and "recipients data = Some (first # others)"
  shows "transformRecipients rt data w =
           (Threw ConfigurationError (data\<lparr>originalRecipients := recipients data\<rparr>),
            log ''error'' ''Failed to parse FORWARD_MAPPING environment variable'' w)"
  using assms by (simp add: transformRecipients_def ConfigurationError_def)

theorem unparsable_table_throws_witness:
  "transformRecipients (ex_runtime None '''' Undefined)
     ((new_data None no_config)\<lparr>recipients := Some [''a@example.com'', ''b@example.com'']\<rparr>) w0 =
   (Threw ConfigurationError
      ((new_data None no_config)\<lparr>recipients := Some [''a@example.com'', ''b@example.com''],
                                  originalRecipients := Some [''a@example.com'', ''b@example.com'']\<rparr>),
    log ''error'' ''Failed to parse FORWARD_MAPPING environment variable'' w0)"
proof -
  have 1: "JSON_parse (ex_runtime None '''' Undefined)
             (forward_mapping_source (ex_runtime None '''' Undefined)) = None"
    by (simp add: ex_runtime_def)
  have 2: "recipients ((new_data None no_config)\<lparr>recipients := Some [''a@example.com'', ''b@example.com'']\<rparr>) =
             Some (''a@example.com'' # [''b@example.com''])"
    by simp
  from unparsable_table_throws [OF 1 2, of w0] show ?thesis by simp
qed

text \<open>
  C9 as it is stated fails for a notification without recipients: the table is never
  parsed, nothing is thrown, and the transformer ends the run through the callback.
\<close>

theorem unparsable_table_no_recipients:
  "JSON_parse (ex_runtime None '''' Undefined)
     (forward_mapping_source (ex_runtime None '''' Undefined)) = None \<and>
   transformRecipients (ex_runtime None '''' Undefined)
     ((new_data None no_config)\<lparr>recipients := Some []\<rparr>) w0 =
   (Returned Undefined,
    \<lparr>logged = [\<lparr>level = ''info'',
                message = ''Finishing process. No new recipients found for original destinations: ''\<rparr>],
     signals = [None], s3_requests = [], ses_requests = []\<rparr>)"
  by (simp add: transformRecipients_def ex_runtime_def callback_def log_def w0_def str_def
      new_data_def)

section \<open>The order of the forwarding rules\<close>

lemma lastIndexOf_Some: "lastIndexOf c s = Some p \<Longrightarrow> p < length s \<and> s ! p = c"
proof (induction s arbitrary: p)
  case Nil
  then show ?case by simp
next
  case (Cons x xs)
  then show ?case by (cases "lastIndexOf c xs") (auto split: if_splits)
qed

lemma domain_part_at: "domain_part key = Some d \<Longrightarrow> \<exists>rest. d = CHR ''@'' # rest"
proof -
  assume "domain_part key = Some d"
  then obtain p where p: "lastIndexOf (CHR ''@'') key = Some p" and d: "d = drop p key"
    by (auto simp: domain_part_def)
  from lastIndexOf_Some [OF p] have "drop p key = CHR ''@'' # drop (Suc p) key"
    by (metis Cons_nth_drop_Suc)
  with d show ?thesis by blast
qed

lemma at_not_inherited: "CHR ''@'' # rest \<notin> set Object_prototype_keys"
  by (simp add: Object_prototype_keys_def)

lemma js_in_own: "k \<notin> set Object_prototype_keys \<Longrightarrow> js_in k table \<longleftrightarrow> table k \<noteq> None"
  by (simp add: js_in_def)

text \<open>
  The key the loop body finds, for an address whose key and local part are no inherited
  property names: the first of the four keys that the table has.
\<close>

lemma matched_key_own:
  assumes "key \<notin> set Object_prototype_keys" and "local_part key \<notin> set Object_prototype_keys"
  shows "matched_key table key =
           (if table key \<noteq> None then Some key
            else if Option.bind (domain_part key) table \<noteq> None then domain_part key
            else if local_part key \<noteq> [] \<and> table (local_part key) \<noteq> None then Some (local_part key)
            else if table ''@'' \<noteq> None then Some ''@''
            else None)"
proof (cases "lastIndexOf (CHR ''@'') key")
  case None
  then have "domain_part key = None" and "local_part key = key"
    by (simp_all add: domain_part_def local_part_def)
  with None assms show ?thesis
    by (simp add: matched_key_def js_in_own at_not_inherited [of "[]"])
next
  case (Some p)
  then have d: "domain_part key = Some (drop p key)" and l: "local_part key = take p key"
    by (simp_all add: domain_part_def local_part_def)
  from domain_part_at [OF d] obtain rest where rest: "drop p key = CHR ''@'' # rest" by blast
  then have "js_in (drop p key) table \<longleftrightarrow> table (drop p key) \<noteq> None"
    by (simp add: js_in_own at_not_inherited)
  with Some d l rest assms show ?thesis
    by (simp add: matched_key_def Let_def js_in_own at_not_inherited [of "[]"])
qed

lemma push_matched_key_own:
  assumes "key \<notin> set Object_prototype_keys" and "local_part key \<notin> set Object_prototype_keys"
  shows "(case matched_key table key of
            None \<Rightarrow> Inr newRecipients
          | Some k \<Rightarrow> push_spread newRecipients table k) =
         Inr (newRecipients @ guarded_destinations table key)"
  unfolding matched_key_own [OF assms] guarded_destinations_def push_spread_def
  by (cases "domain_part key") (auto split: option.splits)

text \<open>
  C2, as the code has it: for a recipient whose lookup key and local part are none of the
  property names that every object inherits, the destinations appended are those of the
  first rule that matches, in the order full address, domain portion, local part when it
  is not empty, catch-all; and for \<open>alice@example.com\<close> under the table of the claim they
  are exactly the two of the exact match.
\<close>

theorem rule_order:
  "(JSON_parse rt (forward_mapping_source rt) = Some table \<and>
    origEmailKey origEmail \<notin> set Object_prototype_keys \<and>
    local_part (origEmailKey origEmail) \<notin> set Object_prototype_keys \<longrightarrow>
      fst (for_recipients rt [origEmail] newRecipients data w) =
        Inr (newRecipients @ guarded_destinations table (origEmailKey origEmail))) \<and>
   fst (for_recipients (ex_runtime (Some alice_table) '''' Undefined) [''alice@example.com''] []
          (new_data None no_config) w0) =
     Inr [''a1@dest.com'', ''a2@dest.com'']"
proof (intro conjI impI)
  assume a: "JSON_parse rt (forward_mapping_source rt) = Some table \<and>
    origEmailKey origEmail \<notin> set Object_prototype_keys \<and>
    local_part (origEmailKey origEmail) \<notin> set Object_prototype_keys"
  then have p: "(case matched_key table (origEmailKey origEmail) of
            None \<Rightarrow> Inr newRecipients
          | Some k \<Rightarrow> push_spread newRecipients table k) =
         Inr (newRecipients @ guarded_destinations table (origEmailKey origEmail))"
    by (intro push_matched_key_own) simp_all
  from a have parse: "JSON_parse rt (forward_mapping_source rt) = Some table" by simp
  show "fst (for_recipients rt [origEmail] newRecipients data w) =
        Inr (newRecipients @ guarded_destinations table (origEmailKey origEmail))"
    using p by (simp add: parse split: option.splits sum.splits)
next
  show "fst (for_recipients (ex_runtime (Some alice_table) '''' Undefined) [''alice@example.com''] []
          (new_data None no_config) w0) =
     Inr [''a1@dest.com'', ''a2@dest.com'']"
    by (simp add: ex_runtime_def alice_table_def matched_key_def js_in_def push_spread_def
        origEmailKey_def toLowerCase_def lower_char_def upper_letters_def lower_letters_def)
qed

theorem rule_order_witness:
  "fst (for_recipients (ex_runtime (Some alice_table) '''' Undefined) [''Bob+news@Example.com''] []
          (new_data None no_config) w0) =
     Inr [''domain@dest.com'']"
proof -
  have k: "origEmailKey ''Bob+news@Example.com'' = ''bob@example.com''"
    by (simp add: origEmailKey_def toLowerCase_def lower_char_def upper_letters_def
        lower_letters_def LineTerminator_def)
  have 1: "JSON_parse (ex_runtime (Some alice_table) '''' Undefined)
             (forward_mapping_source (ex_runtime (Some alice_table) '''' Undefined)) = Some alice_table"
    by (simp add: ex_runtime_def)
  have 2: "origEmailKey ''Bob+news@Example.com'' \<notin> set Object_prototype_keys"
    by (simp add: k Object_prototype_keys_def)
  have 3: "local_part (origEmailKey ''Bob+news@Example.com'') \<notin> set Object_prototype_keys"
    by (simp add: k local_part_def Object_prototype_keys_def)
  have 4: "guarded_destinations alice_table ''bob@example.com'' = [''domain@dest.com'']"
    by (simp add: guarded_destinations_def alice_table_def domain_part_def local_part_def)
  from rule_order [of "ex_runtime (Some alice_table) '''' Undefined" alice_table
      "''Bob+news@Example.com''" "[]" "new_data None no_config" w0] 1 2 3 4 k
  show ?thesis by simp
qed

text \<open>
  C2 as it is stated fails for the recipient \<open>@example.com\<close> under a table with the empty
  key: its local part is the empty string, which the table has, but the code does not
  look an empty local part up and appends nothing.
\<close>

theorem empty_local_part_not_looked_up:
  "fst (for_recipients (ex_runtime (Some empty_key_table) '''' Undefined) [''@example.com''] []
          (new_data None no_config) w0) = Inr [] \<and>
   spec_destinations empty_key_table (origEmailKey ''@example.com'') = [''x@dest.com'']"
  by (simp add: ex_runtime_def empty_key_table_def matched_key_def js_in_def push_spread_def
      origEmailKey_def toLowerCase_def lower_char_def upper_letters_def lower_letters_def
      Object_prototype_keys_def spec_destinations_def domain_part_def local_part_def)

section \<open>The envelope sender\<close>

lemma for_recipients_result:
  assumes "JSON_parse rt (forward_mapping_source rt) = Some table" and "own_matches table rs"
  shows "for_recipients rt rs newRecipients data w =
           (Inr (newRecipients @ concat (map (destinations_of table) rs)),
            (case filter (matches table) rs of
               [] \<Rightarrow> data
             | m # ms \<Rightarrow> data\<lparr>originalRecipient := Some (last (m # ms))\<rparr>),
            w)"
  using assms(2)
proof (induction rs arbitrary: newRecipients data)
  case Nil
  then show ?case by simp
next
  case (Cons x xs)
  from Cons.prems have xs: "own_matches table xs" by (simp add: own_matches_def)
  show ?case
  proof (cases "matched_key table (origEmailKey x)")
    case None
    then show ?thesis
      using Cons.IH [OF xs] assms(1) by (simp add: destinations_of_def matches_def)
  next
    case (Some k)
    with Cons.prems obtain ds where ds: "table k = Some ds"
      by (auto simp: own_matches_def)
    show ?thesis
      using Some ds assms(1)
        Cons.IH [OF xs, of "newRecipients @ ds" "data\<lparr>originalRecipient := Some x\<rparr>"]
      by (simp add: destinations_of_def matches_def push_spread_def split: list.splits)
  qed
qed

lemma no_match_no_destinations:
  "filter (matches table) rs = [] \<Longrightarrow> concat (map (destinations_of table) rs) = []"
  by (induction rs) (auto simp: matches_def destinations_of_def split: if_splits)

lemma ses_requests_log: "ses_requests (log lvl msg w) = ses_requests w"
  by (simp add: log_def)

lemma ses_requests_callback: "ses_requests (snd (callback rt e w)) = ses_requests w"
  by (simp add: callback_def)

lemma transformRecipients_forwards:
  assumes "JSON_parse rt (forward_mapping_source rt) = Some table"
    and "recipients data = Some rs" and "own_matches table rs"
    and "concat (map (destinations_of table) rs) \<noteq> []"
  shows "transformRecipients rt data w =
           (Returned (Obj (data\<lparr>originalRecipients := Some rs,
                                originalRecipient := Some (last (filter (matches table) rs)),
                                recipients := Some (concat (map (destinations_of table) rs))\<rparr>)), w)"
proof -
  define ds where "ds = concat (map (destinations_of table) rs)"
  define data1 where "data1 = data\<lparr>originalRecipients := Some rs\<rparr>"
  from assms(4) have ne: "length ds \<noteq> 0" by (simp add: ds_def)
  from assms(4) no_match_no_destinations [of table rs]
  obtain m ms where ms: "filter (matches table) rs = m # ms"
    by (cases "filter (matches table) rs") auto
  have "for_recipients rt rs [] data1 w =
          (Inr ds, data1\<lparr>originalRecipient := Some (last (filter (matches table) rs))\<rparr>, w)"
    unfolding ds_def using ms by (simp add: for_recipients_result [OF assms(1) assms(3)])
  with ne assms(2) have "transformRecipients rt data w =
      (Returned (Obj (data1\<lparr>originalRecipient := Some (last (filter (matches table) rs)),
                            recipients := Some ds\<rparr>)), w)"
    by (simp add: transformRecipients_def data1_def)
  then show ?thesis by (simp add: data1_def ds_def)
qed

lemma fetchMessage_fetches:
  assumes "s3_send rt (BUCKET_NAME rt, str (KEY_PREFIX rt) @ str (map_option messageId (email data))) = Inr body"
  shows "\<exists>w'. fetchMessage rt data w = (Returned (Obj (data\<lparr>emailData := body\<rparr>)), w') \<and>
              ses_requests w' = ses_requests w"
  using assms by (simp add: fetchMessage_def Let_def ses_requests_log)

lemma add_reply_to_ses: "ses_requests (snd (add_reply_to header w)) = ses_requests w"
  by (simp add: add_reply_to_def Let_def ses_requests_log)

lemma processMessage_returns:
  "\<exists>raw w'. processMessage rt data w = (Returned (Obj (data\<lparr>emailData := Some raw\<rparr>)), w') \<and>
             ses_requests w' = ses_requests w"
proof -
  obtain header body where hb: "header_and_body (emailData data) = (header, body)"
    by (cases "header_and_body (emailData data)")
  obtain header1 w1 where h1: "add_reply_to header w = (header1, w1)"
    by (cases "add_reply_to header w")
  from add_reply_to_ses [of header w] h1 have q: "ses_requests w1 = ses_requests w" by simp
  from hb h1 have "processMessage rt data w =
      (Returned (Obj (data\<lparr>emailData := Some (str (rewrite_header rt (config data) header1) @ body)\<rparr>)), w1)"
    by (simp add: processMessage_def)
  with q show ?thesis by blast
qed

lemma sendMessage_request:
  "\<exists>res w'. stage p (sendMessage rt) (Obj data) w = (res, w') \<and>
      ses_requests w' =
        ses_requests w @
          [\<lparr>Destinations = recipients data, Source = originalRecipient data,
            RawMessage = (case emailData data of None \<Rightarrow> [] | Some s \<Rightarrow> s)\<rparr>]"
  by (cases "ses_send rt \<lparr>Destinations = recipients data, Source = originalRecipient data,
            RawMessage = (case emailData data of None \<Rightarrow> [] | Some s \<Rightarrow> s)\<rparr>")
    (simp_all add: stage_def sendMessage_def Let_def ses_requests_log)

lemma handler_end_ses:
  "ses_requests (snd (case res of
       (Inr result, w') \<Rightarrow> callback rt None (log ''info'' ''Process finished successfully.'' w')
     | (Inl e, w') \<Rightarrow>
         callback rt (Some (Error ''Error: Step returned error.''))
           (log ''error'' (''Step returned error: '' @ message_of e) w'))) =
   ses_requests (snd res)"
  by (cases res) (auto simp: ses_requests_callback ses_requests_log split: sum.splits)

text \<open>The request of a run of the five stages in which every stage before the sender returns.\<close>

lemma forwarded_request:
  assumes v: "valid_notification ev" and r: "single_record ev = Some r"
    and rs: "rs = receiptRecipients (receipt (ses r))"
    and parse: "JSON_parse rt (forward_mapping_source rt) = Some table"
    and own: "own_matches table rs"
    and ne: "concat (map (destinations_of table) rs) \<noteq> []"
    and s3: "s3_send rt (BUCKET_NAME rt, str (KEY_PREFIX rt) @ messageId (mail (ses r))) = Inr body"
  shows "\<exists>raw. ses_requests (snd (handler rt ev None w)) =
           ses_requests w @
             [\<lparr>Destinations = Some (concat (map (destinations_of table) rs)),
               Source = Some (last (filter (matches table) rs)),
               RawMessage = raw\<rparr>]"
proof -
  define d0 where "d0 = new_data ev \<lparr>toEmail = None\<rparr>"
  define d1 where "d1 = d0\<lparr>email := Some (mail (ses r)), recipients := Some rs\<rparr>"
  define d2 where "d2 = d1\<lparr>originalRecipients := Some rs,
                          originalRecipient := Some (last (filter (matches table) rs)),
                          recipients := Some (concat (map (destinations_of table) rs))\<rparr>"
  have ev: "event d0 = ev" by (simp add: d0_def new_data_def)
  have s1: "stage ''event'' parseEvent (Obj d0) w = (Inr (Obj d1), w)"
    using parseEvent_valid [of d0 r w] v r rs by (simp add: stage_def ev d1_def)
  have "recipients d1 = Some rs" by (simp add: d1_def)
  from transformRecipients_forwards [OF parse this own ne, of w]
  have s2: "stage ''recipients'' (transformRecipients rt) (Obj d1) w = (Inr (Obj d2), w)"
    by (simp add: stage_def d2_def)
  have "str (map_option messageId (email d2)) = messageId (mail (ses r))"
    by (simp add: d2_def d1_def str_def)
  with s3 fetchMessage_fetches [of rt d2 body w]
  obtain w3 where s3': "stage ''log'' (fetchMessage rt) (Obj d2) w = (Inr (Obj (d2\<lparr>emailData := body\<rparr>)), w3)"
    and q3: "ses_requests w3 = ses_requests w"
    by (auto simp: stage_def)
  from processMessage_returns [of rt "d2\<lparr>emailData := body\<rparr>" w3]
  obtain raw w4 where s4: "stage ''emailData'' (processMessage rt) (Obj (d2\<lparr>emailData := body\<rparr>)) w3 =
        (Inr (Obj (d2\<lparr>emailData := Some raw\<rparr>)), w4)"
    and q4: "ses_requests w4 = ses_requests w3"
    by (auto simp: stage_def)
  from sendMessage_request [of "''recipients''" rt "d2\<lparr>emailData := Some raw\<rparr>" w4]
  obtain res w5 where s5: "stage ''recipients'' (sendMessage rt) (Obj (d2\<lparr>emailData := Some raw\<rparr>)) w4 = (res, w5)"
    and q5: "ses_requests w5 = ses_requests w4 @
          [\<lparr>Destinations = Some (concat (map (destinations_of table) rs)),
            Source = Some (last (filter (matches table) rs)), RawMessage = raw\<rparr>]"
    by (auto simp: d2_def)
  have run: "run_steps (default_steps rt) (Obj d0) w = (case res of Inl e \<Rightarrow> (Inl e, w5) | Inr v \<Rightarrow> (Inr v, w5))"
    by (simp add: default_steps_def s1 s2 s3' s4 s5 split: sum.splits)
  then have "snd (run_steps (default_steps rt) (Obj d0) w) = w5"
    by (simp split: sum.splits)
  then have "ses_requests (snd (handler rt ev None w)) = ses_requests w5"
    by (simp add: handler_def Let_def d0_def handler_end_ses)
  with q3 q4 q5 show ?thesis by simp
qed

text \<open>
  C8: in a run of the five stages on a valid notification with recipients \<open>rs\<close>, where the
  table parses, no spread throws, some destination is found and the message is fetched,
  the one request made to the mail transmission API has as its source the last of the
  recipients that match a rule; and under the catch-all table the source for
  \<open>anyone@domain.com\<close> is that address.
\<close>

theorem envelope_sender_last_match:
  "(valid_notification ev \<and> single_record ev = Some r \<and>
    rs = receiptRecipients (receipt (ses r)) \<and>
    JSON_parse rt (forward_mapping_source rt) = Some table \<and>
    own_matches table rs \<and>
    concat (map (destinations_of table) rs) \<noteq> [] \<and>
    s3_send rt (BUCKET_NAME rt, str (KEY_PREFIX rt) @ messageId (mail (ses r))) = Inr body \<longrightarrow>
      (\<exists>raw. ses_requests (snd (handler rt ev None w)) =
         ses_requests w @
           [\<lparr>Destinations = Some (concat (map (destinations_of table) rs)),
             Source = Some (last (filter (matches table) rs)),
             RawMessage = raw\<rparr>])) \<and>
   map Source
     (ses_requests (snd (handler (ex_runtime (Some catchall_table) '''' Undefined)
        (Some (ex_event [''anyone@domain.com''])) None w0))) =
     [Some ''anyone@domain.com'']"
proof (intro conjI impI)
  assume a: "valid_notification ev \<and> single_record ev = Some r \<and>
    rs = receiptRecipients (receipt (ses r)) \<and>
    JSON_parse rt (forward_mapping_source rt) = Some table \<and>
    own_matches table rs \<and>
    concat (map (destinations_of table) rs) \<noteq> [] \<and>
    s3_send rt (BUCKET_NAME rt, str (KEY_PREFIX rt) @ messageId (mail (ses r))) = Inr body"
  show "\<exists>raw. ses_requests (snd (handler rt ev None w)) =
         ses_requests w @
           [\<lparr>Destinations = Some (concat (map (destinations_of table) rs)),
             Source = Some (last (filter (matches table) rs)),
             RawMessage = raw\<rparr>]"
  proof (rule forwarded_request)
    show "valid_notification ev" "single_record ev = Some r"
      "rs = receiptRecipients (receipt (ses r))"
      "JSON_parse rt (forward_mapping_source rt) = Some table"
      "own_matches table rs" "concat (map (destinations_of table) rs) \<noteq> []"
      "s3_send rt (BUCKET_NAME rt, str (KEY_PREFIX rt) @ messageId (mail (ses r))) = Inr body"
      using a by blast+
  qed
next
  let ?rt = "ex_runtime (Some catchall_table) '''' Undefined"
  let ?rs = "[''anyone@domain.com'']"
  have k: "matched_key catchall_table (origEmailKey ''anyone@domain.com'') = Some ''@''"
    by (simp add: catchall_table_def matched_key_def js_in_def Object_prototype_keys_def
        origEmailKey_def toLowerCase_def lower_char_def upper_letters_def lower_letters_def)
  have 1: "valid_notification (Some (ex_event ?rs))"
    by (simp add: valid_notification_def single_record_def ex_event_def ex_record_def)
  have 2: "single_record (Some (ex_event ?rs)) = Some (ex_record ?rs)"
    by (simp add: single_record_def ex_event_def)
  have 3: "?rs = receiptRecipients (receipt (ses (ex_record ?rs)))"
    by (simp add: ex_record_def)
  have 4: "JSON_parse ?rt (forward_mapping_source ?rt) = Some catchall_table"
    by (simp add: ex_runtime_def)
  have 5: "own_matches catchall_table ?rs"
    by (simp add: own_matches_def k) (simp add: catchall_table_def)
  have 6: "concat (map (destinations_of catchall_table) ?rs) \<noteq> []"
    by (simp add: destinations_of_def k) (simp add: catchall_table_def)
  have 7: "s3_send ?rt (BUCKET_NAME ?rt, str (KEY_PREFIX ?rt) @ messageId (mail (ses (ex_record ?rs)))) =
             Inr (Some '''')"
    by (simp add: ex_runtime_def)
  have m: "filter (matches catchall_table) ?rs = ?rs"
    by (simp add: matches_def k)
  from forwarded_request [OF 1 2 3 4 5 6 7, of w0] m
  show "map Source (ses_requests (snd (handler ?rt (Some (ex_event ?rs)) None w0))) =
     [Some ''anyone@domain.com'']"
    by (auto simp: w0_def)
qed

theorem envelope_sender_last_match_witness:
  "map Source
     (ses_requests (snd (handler (ex_runtime (Some alice_table) '''' Undefined)
        (Some (ex_event [''alice@example.com'', ''nobody@other.org'', ''Carol+x@Example.com''])) None w0))) =
     [Some ''Carol+x@Example.com'']"
proof -
  let ?rt = "ex_runtime (Some alice_table) '''' Undefined"
  let ?rs = "[''alice@example.com'', ''nobody@other.org'', ''Carol+x@Example.com'']"
  have k1: "matched_key alice_table (origEmailKey ''alice@example.com'') = Some ''alice@example.com''"
    by (simp add: alice_table_def matched_key_def js_in_def Object_prototype_keys_def
        origEmailKey_def toLowerCase_def lower_char_def upper_letters_def lower_letters_def)
  have k2: "matched_key alice_table (origEmailKey ''nobody@other.org'') = None"
    by (simp add: alice_table_def matched_key_def js_in_def Object_prototype_keys_def
        origEmailKey_def toLowerCase_def lower_char_def upper_letters_def lower_letters_def)
  have k3: "matched_key alice_table (origEmailKey ''Carol+x@Example.com'') = Some ''@example.com''"
    by (simp add: alice_table_def matched_key_def js_in_def Object_prototype_keys_def
        origEmailKey_def toLowerCase_def lower_char_def upper_letters_def lower_letters_def
        LineTerminator_def)
  have 1: "valid_notification (Some (ex_event ?rs))"
    by (simp add: valid_notification_def single_record_def ex_event_def ex_record_def)
  have 2: "single_record (Some (ex_event ?rs)) = Some (ex_record ?rs)"
    by (simp add: single_record_def ex_event_def)
  have 3: "?rs = receiptRecipients (receipt (ses (ex_record ?rs)))"
    by (simp add: ex_record_def)
  have 4: "JSON_parse ?rt (forward_mapping_source ?rt) = Some alice_table"
    by (simp add: ex_runtime_def)
  have 5: "own_matches alice_table ?rs"
    by (simp add: own_matches_def k1 k2 k3) (simp add: alice_table_def)
  have 6: "concat (map (destinations_of alice_table) ?rs) \<noteq> []"
    by (simp add: destinations_of_def k1 k2 k3) (simp add: alice_table_def)
  have 7: "s3_send ?rt (BUCKET_NAME ?rt, str (KEY_PREFIX ?rt) @ messageId (mail (ses (ex_record ?rs)))) =
             Inr (Some '''')"
    by (simp add: ex_runtime_def)
  have m: "filter (matches alice_table) ?rs = [''alice@example.com'', ''Carol+x@Example.com'']"
    by (simp add: matches_def k1 k2 k3)
  from envelope_sender_last_match [of "Some (ex_event ?rs)" "ex_record ?rs" ?rs ?rt alice_table
      "Some ''''" w0] 1 2 3 4 5 6 7 m
  show ?thesis by (auto simp: w0_def)
qed

section \<open>The exit without destinations\<close>

text \<open>
  C1 fails on the code. With an empty table and a recipient, the transformer logs that it
  finishes, calls the callback and returns what the callback returns, and the loop of the
  handler hands that value to the Message Fetcher. When the callback returns \<open>undefined\<close>
  the fetcher throws on its first read and the handler signals the error of the driver
  after the success. When the callback returns a context, the fetcher, the processor and
  the sender all run on it: the object store is asked for a message and a message is sent.
\<close>

theorem no_destinations_run_goes_on:
  "handler (ex_runtime (Some Map.empty) '''' Undefined)
     (Some (ex_event [''x@example.com''])) None w0 =
   (Undefined,
    \<lparr>logged =
       [\<lparr>level = ''info'',
         message = ''Finishing process. No new recipients found for original destinations: x@example.com''\<rparr>,
        \<lparr>level = ''error'',
         message = ''Step returned error: Cannot read properties of undefined (reading '' @
                   [CHR 0x27] @ ''log'' @ [CHR 0x27] @ '')''\<rparr>],
     signals = [None, Some StepError], s3_requests = [], ses_requests = []\<rparr>) \<and>
   s3_requests (snd (handler (ex_runtime (Some Map.empty) '''' (Obj (new_data None no_config)))
     (Some (ex_event [''x@example.com''])) None w0)) = [(Some ''bucket'', ''inbox/undefined'')] \<and>
   ses_requests (snd (handler (ex_runtime (Some Map.empty) '''' (Obj (new_data None no_config)))
     (Some (ex_event [''x@example.com''])) None w0)) =
     [\<lparr>Destinations = None, Source = None, RawMessage = []\<rparr>]"
  by code_simp

section \<open>The message of the specification's example\<close>

text \<open>
  C5 fails on the code. The header of the example is rewritten as the claim says, with the
  no-reply address in \<open>From\<close> and the new \<open>Reply-To\<close> line, but the body that is kept is the
  empty line alone: \<open>hello\<close> has no white space after it, and the second group of the split
  ends at the last white space character of the message.
\<close>

theorem hello_is_dropped:
  "fst (processMessage (ex_runtime (Some Map.empty) '''' Undefined)
          ((new_data None no_config)\<lparr>emailData := Some hello_message\<rparr>) w0) =
   Returned (Obj ((new_data None no_config)
     \<lparr>emailData :=
        Some (''From: A <noreply@example.com>'' @ [CR, LF] @ ''To: x@y.com'' @ [CR, LF] @
              ''Reply-To: A <a@b.com>'' @ [CR, LF] @ [CR, LF])\<rparr>))"
  by code_simp

section \<open>Header and body\<close>

declare header_lines.simps [simp del]
declare body_rest.simps [simp del]















text \<open>
  Two messages the statement above says nothing about. With CRLF line ends and no empty
  line, the split matches between the first carriage return and its line feed: the header
  is the whole message and the body repeats it from that line feed on. A message that
  starts with an empty line has an empty first group, so its header is the whole message
  as well.
\<close>

lemma crlf_message_without_empty_line:
  "header_and_body (Some (''A: 1'' @ [CR, LF] @ ''B: 2'' @ [CR, LF])) =
     (Some (''A: 1'' @ [CR, LF] @ ''B: 2'' @ [CR, LF]), [LF] @ ''B: 2'' @ [CR, LF])"
  by code_simp

lemma message_starting_with_empty_line:
  "header_and_body (Some ([CR, LF] @ ''body'' @ [CR, LF])) =
     (Some ([CR, LF] @ ''body'' @ [CR, LF]), [CR, LF] @ ''body'' @ [CR, LF])"
  by code_simp

end
